theory Spec2Isabelle
  imports Main
begin

section \<open>Python string operations used by the models\<close>

text \<open>
  A Python \<^verbatim>\<open>str\<close> is modelled as a \<^typ>\<open>string\<close>: one \<^typ>\<open>char\<close> per code point,
  for code points below 256. \<^verbatim>\<open>None\<close> is \<^term>\<open>None\<close> of an option type.
\<close>

definition backslash :: char where
  "backslash = CHR 0x5C"

text \<open>\<^verbatim>\<open>s.split(sep)\<close> for a separator of one character: never empty, one part
  more than there are separators.\<close>

fun split_chr :: "char \<Rightarrow> string \<Rightarrow> string list" where
  "split_chr sep [] = [[]]"
| "split_chr sep (c # cs) =
     (if c = sep then [] # split_chr sep cs
      else (case split_chr sep cs of
              [] \<Rightarrow> [[c]]
            | p # ps \<Rightarrow> (c # p) # ps))"

text \<open>\<^verbatim>\<open>sep.join(parts)\<close>.\<close>

fun join :: "string \<Rightarrow> string list \<Rightarrow> string" where
  "join sep [] = []"
| "join sep [p] = p"
| "join sep (p # q # ps) = p @ sep @ join sep (q # ps)"

text \<open>\<^verbatim>\<open>s.strip(chars)\<close>: drops every leading and every trailing character that
  occurs in \<^verbatim>\<open>chars\<close>.\<close>

definition strip_chars :: "string \<Rightarrow> string \<Rightarrow> string" where
  "strip_chars chars s =
     rev (dropWhile (\<lambda>c. c \<in> set chars) (rev (dropWhile (\<lambda>c. c \<in> set chars) s)))"

text \<open>The characters \<^verbatim>\<open>str.isspace\<close> accepts among the code points below 256:
  tab, line feed, vertical tab, form feed, carriage return, the four separators
  0x1C to 0x1F, space, next line (0x85) and no-break space (0xA0).\<close>

definition whitespace :: string where
  "whitespace = [CHR 0x09, CHR 0x0A, CHR 0x0B, CHR 0x0C, CHR 0x0D,
                 CHR 0x1C, CHR 0x1D, CHR 0x1E, CHR 0x1F, CHR 0x20, CHR 0x85, CHR 0xA0]"

text \<open>\<^verbatim>\<open>s.strip()\<close>.\<close>

definition strip :: "string \<Rightarrow> string" where
  "strip s = strip_chars whitespace s"

text \<open>Python's truth value of an optional string: \<^verbatim>\<open>None\<close> and \<^verbatim>\<open>''\<close> are false.\<close>

fun truthy :: "string option \<Rightarrow> bool" where
  "truthy None = False"
| "truthy (Some s) = (s \<noteq> [])"

section \<open>The Settings model\<close>

record settings =
  username :: "string option"
  password :: "string option"
  domain :: string
  ssl :: bool
  port :: nat

subsection \<open>get_user_principal_name\<close>

text \<open>Lines 27 to 45 of models.py. The argument is \<^verbatim>\<open>None\<close> or a string, on which
  \<^verbatim>\<open>str\<close> is the identity.\<close>

definition get_user_principal_name :: "string option \<Rightarrow> string option" where
  "get_user_principal_name user =
     (case user of
        None \<Rightarrow> None
      | Some u \<Rightarrow>
          if CHR ''@'' \<in> set u then Some u
          else if backslash \<in> set u then Some (join ''@'' (rev (split_chr backslash u)))
          else None)"

subsection \<open>save\<close>

text \<open>Lines 47 to 58. The value is the row that \<^verbatim>\<open>super().save()\<close> stores: the
  fields after the normalisation.\<close>

definition save :: "settings \<Rightarrow> settings" where
  "save s =
     (let s1 = (if truthy (username s) then s\<lparr>username := map_option strip (username s)\<rparr> else s);
          s2 = (if domain s1 \<noteq> [] then s1\<lparr>domain := strip (domain s1)\<rparr> else s1)
      in if \<not> truthy (username s2) then s2\<lparr>username := None, password := None\<rparr> else s2)"

subsection \<open>get_search_base\<close>

text \<open>The exceptions of the modelled code: the two Python raises on a value that is
  \<^verbatim>\<open>None\<close> or a list that is too short, and the exceptions of ldap3
  (\<^verbatim>\<open>LDAPException\<close> with its message).\<close>

datatype error =
    AttributeError
  | IndexError
  | LDAPException string
  | LDAPInvalidPortError
  | LDAPSocketOpenError
  | LDAPBindError

text \<open>Lines 60 to 66: \<^verbatim>\<open>None.split\<close> raises AttributeError, and the index 1 of a
  list of one part raises IndexError.\<close>

definition get_search_base :: "settings \<Rightarrow> error + string" where
  "get_search_base s =
     (case get_user_principal_name (username s) of
        None \<Rightarrow> Inl AttributeError
      | Some u \<Rightarrow>
          (case split_chr (CHR ''@'') u of
             _ # d # _ \<Rightarrow>
               Inr (strip_chars '',''
                      (concat (map (\<lambda>l. ''dc='' @ l @ '','') (split_chr (CHR ''.'') d))))
           | _ \<Rightarrow> Inl IndexError))"

section \<open>The directory: ldap3 and the server behind it\<close>

text \<open>
  ldap3 and the directory server are outside the repository. They are a parameter of
  the model: whether the constructor of a server object accepts its host and port,
  what the bind of a new connection answers, and what a paged search over a bound
  connection yields. The calls the code makes to the directory are recorded in a log
  of events; the constructor of the server object makes none.
\<close>

record server =
  host :: string
  server_port :: nat
  use_ssl :: bool

text \<open>\<^verbatim>\<open>ldap3.Connection(server, user, password, auto_bind=True)\<close>. ldap3 binds
  anonymously when the user is \<^verbatim>\<open>None\<close>.\<close>

record connection =
  conn_server :: server
  conn_user :: "string option"
  conn_password :: "string option"

datatype scope = BASE | LEVEL | SUBTREE

record search_request =
  search_base :: string
  search_filter :: string
  search_scope :: scope
  attributes :: string
  paged_size :: nat

text \<open>An entry of the response is a dictionary; \<^verbatim>\<open>entry.get(k)\<close> is a lookup.\<close>

type_synonym entry = "(string \<times> string) list"

definition entry_get :: "entry \<Rightarrow> string \<Rightarrow> string option" where
  "entry_get entry k = map_of entry k"

text \<open>\<^verbatim>\<open>ldap3.Server(host, port=..., use_ssl=..., get_info=ALL)\<close> checks its
  arguments and answers with the exception it raises, if any: LDAPInvalidPortError for
  a port that is not below 65535, or for a host with a port suffix that is not a
  number. The bind answers likewise. The generator of a paged search yields entries
  and may then raise.\<close>

record directory =
  dir_server :: "server \<Rightarrow> error option"
  dir_bind :: "connection \<Rightarrow> error option"
  dir_paged_search :: "connection \<Rightarrow> search_request \<Rightarrow> entry list \<times> error option"

datatype event =
    Bind connection
  | PagedSearch connection search_request
  | Unbind connection

subsection \<open>get_connection\<close>

text \<open>Lines 74 to 76: the stored pair replaces both arguments when \<^verbatim>\<open>login_username\<close>
  is false.\<close>

definition effective_credentials ::
  "settings \<Rightarrow> string option \<Rightarrow> string option \<Rightarrow> string option \<times> string option" where
  "effective_credentials s login_username login_password =
     (if \<not> truthy login_username then (username s, password s)
      else (login_username, login_password))"

text \<open>Lines 68 to 85. The server object is made first, outside the \<^verbatim>\<open>try\<close>: an
  exception of its constructor leaves the function before any bind. The constructor of
  the connection binds (\<^verbatim>\<open>auto_bind=True\<close>) and returns an object, never \<^verbatim>\<open>None\<close>;
  the \<^verbatim>\<open>except\<close> clause raises what it caught again.\<close>

definition get_connection ::
  "directory \<Rightarrow> settings \<Rightarrow> string option \<Rightarrow> string option
     \<Rightarrow> (error + connection option) \<times> event list" where
  "get_connection d s login_username login_password =
     (case effective_credentials s login_username login_password of
        (login_username', login_password') \<Rightarrow>
          let srv = \<lparr>host = domain s, server_port = port s, use_ssl = ssl s\<rparr>
          in (case dir_server d srv of
                Some e \<Rightarrow> (Inl e, [])
              | None \<Rightarrow>
                  let c = \<lparr>conn_server = srv,
                           conn_user = get_user_principal_name login_username',
                           conn_password = login_password'\<rparr>
                  in (case dir_bind d c of
                        Some e \<Rightarrow> (Inl e, [Bind c])
                      | None \<Rightarrow> (Inr (Some c), [Bind c]))))"

subsection \<open>get_users_info_ad\<close>

text \<open>The \<^verbatim>\<open>users\<close> argument: \<^verbatim>\<open>None\<close>, a list, a tuple, or a string passed in place
  of a list.\<close>

datatype users_arg =
    UsersNone
  | UsersList "string list"
  | UsersTuple "string list"
  | UsersStr string

fun users_truthy :: "users_arg \<Rightarrow> bool" where
  "users_truthy UsersNone = False"
| "users_truthy (UsersList us) = (us \<noteq> [])"
| "users_truthy (UsersTuple us) = (us \<noteq> [])"
| "users_truthy (UsersStr u) = (u \<noteq> [])"

text \<open>Lines 89 to 96.\<close>

fun build_search_filter :: "users_arg \<Rightarrow> error + string" where
  "build_search_filter users =
     (if \<not> users_truthy users then Inr ''(objectClass=person)''
      else (case users of
              UsersList us \<Rightarrow>
                Inr (''(&(objectClass=person)(|''
                     @ concat (map (\<lambda>user. ''(sAMAccountName='' @ strip user @ '')'') us)
                     @ ''))'')
            | UsersTuple us \<Rightarrow>
                Inr (''(&(objectClass=person)(|''
                     @ concat (map (\<lambda>user. ''(sAMAccountName='' @ strip user @ '')'') us)
                     @ ''))'')
            | _ \<Rightarrow> Inl (LDAPException ''Users must be list/tuple of users or None'')))"

text \<open>The loop of lines 105 to 115, \<^verbatim>\<open>results\<close> as the accumulator.\<close>

fun collect_entries :: "entry list \<Rightarrow> entry list \<Rightarrow> entry list" where
  "collect_entries results [] = results"
| "collect_entries results (entry # rest) =
     collect_entries
       (if entry_get entry ''type'' \<noteq> Some ''searchResRef'' then results @ [entry]
        else results)
       rest"

text \<open>Lines 87 to 122. An exception of the generator leaves the function at the loop,
  before the unbind of lines 117 and 118.\<close>

definition get_users_info_ad ::
  "directory \<Rightarrow> settings \<Rightarrow> string option \<Rightarrow> string option \<Rightarrow> users_arg \<Rightarrow> string
     \<Rightarrow> (error + entry list) \<times> event list" where
  "get_users_info_ad d s login_username login_password users attrs =
     (case build_search_filter users of
        Inl e \<Rightarrow> (Inl e, [])
      | Inr flt \<Rightarrow>
          (case get_search_base s of
             Inl e \<Rightarrow> (Inl e, [])
           | Inr base \<Rightarrow>
               (case get_connection d s login_username login_password of
                  (Inl e, log) \<Rightarrow> (Inl e, log)
                | (Inr None, log) \<Rightarrow>
                    (Inl (LDAPException ''No active AD connections found''), log)
                | (Inr (Some c), log) \<Rightarrow>
                    let req = \<lparr>search_base = base, search_filter = flt,
                                 search_scope = SUBTREE, attributes = attrs,
                                 paged_size = 500\<rparr>
                    in (case dir_paged_search d c req of
                          (entries, Some e) \<Rightarrow> (Inl e, log @ [PagedSearch c req])
                        | (entries, None) \<Rightarrow>
                            (Inr (collect_entries [] entries),
                             log @ [PagedSearch c req, Unbind c])))))"

section \<open>The specification's reading of the effective credentials\<close>

text \<open>The credentials of a bind as the specification words them, to be compared with
  \<^const>\<open>effective_credentials\<close>: the override pair if both are given, else the stored
  username and password.\<close>

definition effective_credentials_spec ::
  "settings \<Rightarrow> string option \<Rightarrow> string option \<Rightarrow> string option \<times> string option" where
  "effective_credentials_spec s override_username override_password =
     (if override_username \<noteq> None \<and> override_password \<noteq> None
      then (override_username, override_password)
      else (username s, password s))"

text \<open>The credentials as the docstring of get_connection words them (lines 70 and
  71): each argument is replaced by the stored one if it is \<^verbatim>\<open>None\<close>.\<close>

definition effective_credentials_docstring ::
  "settings \<Rightarrow> string option \<Rightarrow> string option \<Rightarrow> string option \<times> string option" where
  "effective_credentials_docstring s login_username login_password =
     (if login_username = None then username s else login_username,
      if login_password = None then password s else login_password)"

section \<open>Example settings and directories\<close>

text \<open>Concrete inputs on which the theorems below are evaluated: a settings row, the
  connection that get_connection builds from it, a response of two entries with a
  referral between them, a directory that accepts every bind and answers every search
  with that response, and one whose search raises after the first entry. Both accept
  a server object whose port is below 65535.\<close>

definition example_settings :: settings where
  "example_settings =
     \<lparr>username = Some ''admin@corp.example.com'', password = Some ''secret'',
      domain = ''dc1.corp.example.com'', ssl = False, port = 389\<rparr>"

definition example_connection :: connection where
  "example_connection =
     \<lparr>conn_server = \<lparr>host = ''dc1.corp.example.com'', server_port = 389, use_ssl = False\<rparr>,
      conn_user = Some ''admin@corp.example.com'', conn_password = Some ''secret''\<rparr>"

definition example_entries :: "entry list" where
  "example_entries =
     [[(''type'', ''searchResEntry''), (''dn'', ''cn=bob,dc=corp,dc=example,dc=com'')],
      [(''type'', ''searchResRef''), (''uri'', ''ldap://other.example.com/'')],
      [(''type'', ''searchResEntry''), (''dn'', ''cn=carol,dc=corp,dc=example,dc=com'')]]"

definition accepting_directory :: directory where
  "accepting_directory =
     \<lparr>dir_server =
        (\<lambda>srv. if server_port srv < 65535 then None else Some LDAPInvalidPortError),
      dir_bind = (\<lambda>c. None),
      dir_paged_search = (\<lambda>c req. (example_entries, None))\<rparr>"

definition failing_search_directory :: directory where
  "failing_search_directory =
     \<lparr>dir_server =
        (\<lambda>srv. if server_port srv < 65535 then None else Some LDAPInvalidPortError),
      dir_bind = (\<lambda>c. None),
      dir_paged_search =
        (\<lambda>c req. (take 1 example_entries, Some (LDAPException ''unwillingToPerform'')))\<rparr>"

section \<open>Facts about the string operations\<close>

text \<open>The equations that evaluate the model on a concrete input.\<close>

lemmas string_defs = backslash_def strip_def strip_chars_def whitespace_def

lemmas settings_defs =
  get_user_principal_name_def get_search_base_def effective_credentials_def
  get_connection_def get_users_info_ad_def entry_get_def Let_def

lemmas example_defs =
  example_settings_def example_connection_def example_entries_def
  accepting_directory_def failing_search_directory_def

lemma split_chr_not_Nil: "split_chr sep s \<noteq> []"
  by (induction s) (auto split: list.splits)

lemma join_split_chr: "join [sep] (split_chr sep s) = s"
proof (induction s)
  case Nil
  show ?case by simp
next
  case (Cons c cs)
  obtain p ps where ps: "split_chr sep cs = p # ps"
    using split_chr_not_Nil [of sep cs] by (cases "split_chr sep cs") auto
  show ?case
  proof (cases "c = sep")
    case True
    with Cons ps show ?thesis by simp
  next
    case False
    with Cons ps show ?thesis by (cases ps) auto
  qed
qed

lemma split_chr_parts: "p \<in> set (split_chr sep s) \<Longrightarrow> sep \<notin> set p"
  by (induction s arbitrary: p) (auto split: if_splits list.splits)

lemma length_split_chr: "length (split_chr sep s) = Suc (length (filter (\<lambda>c. c = sep) s))"
  by (induction s) (auto split: list.splits simp: split_chr_not_Nil)

lemma split_chr_absent: "sep \<notin> set s \<Longrightarrow> split_chr sep s = [s]"
  by (induction s) auto

lemma split_chr_append:
  "sep \<notin> set p \<Longrightarrow> split_chr sep (p @ sep # s) = p # split_chr sep s"
  by (induction p) auto

lemma split_chr_join:
  "ps \<noteq> [] \<Longrightarrow> \<forall>p\<in>set ps. sep \<notin> set p \<Longrightarrow> split_chr sep (join [sep] ps) = ps"
proof (induction "[sep]" ps rule: join.induct)
  case 1
  then show ?case by simp
next
  case (2 p)
  then show ?case by (simp add: split_chr_absent)
next
  case (3 p q ps)
  then show ?case by (simp add: split_chr_append)
qed

lemma strip_chars_decomp:
  "\<exists>a b. s = a @ strip_chars cs s @ b \<and> set a \<subseteq> set cs \<and> set b \<subseteq> set cs"
proof -
  let ?P = "\<lambda>c. c \<in> set cs"
  let ?t = "dropWhile ?P s"
  have 1: "s = takeWhile ?P s @ ?t" by simp
  have "rev ?t = takeWhile ?P (rev ?t) @ dropWhile ?P (rev ?t)" by simp
  then have "?t = rev (dropWhile ?P (rev ?t)) @ rev (takeWhile ?P (rev ?t))"
    by (metis rev_append rev_rev_ident)
  then have 2: "?t = strip_chars cs s @ rev (takeWhile ?P (rev ?t))"
    by (simp add: strip_chars_def)
  have a: "set (takeWhile ?P s) \<subseteq> set cs"
    by (auto dest: set_takeWhileD)
  have b: "set (rev (takeWhile ?P (rev ?t))) \<subseteq> set cs"
    by (auto dest: set_takeWhileD)
  from 1 2 have "s = takeWhile ?P s @ strip_chars cs s @ rev (takeWhile ?P (rev ?t))"
    by metis
  with a b show ?thesis by blast
qed

lemma strip_chars_ends:
  assumes "strip_chars cs s \<noteq> []"
  shows "hd (strip_chars cs s) \<notin> set cs \<and> last (strip_chars cs s) \<notin> set cs"
proof -
  let ?P = "\<lambda>c. c \<in> set cs"
  let ?t = "dropWhile ?P s"
  let ?r = "dropWhile ?P (rev ?t)"
  have r: "?r \<noteq> []" using assms by (simp add: strip_chars_def)
  then have "\<not> ?P (hd ?r)" by (rule hd_dropWhile)
  then have l: "last (strip_chars cs s) \<notin> set cs"
    using r by (simp add: strip_chars_def last_rev)
  have t: "?t \<noteq> []"
  proof
    assume "?t = []"
    then have "?r = []" by (simp only: rev.simps dropWhile.simps)
    with r show False by contradiction
  qed
  then have h: "\<not> ?P (hd ?t)" by (rule hd_dropWhile)
  have "rev ?t = takeWhile ?P (rev ?t) @ ?r" by simp
  then have "?t = rev ?r @ rev (takeWhile ?P (rev ?t))"
    by (metis rev_append rev_rev_ident)
  then have "hd ?t = hd (rev ?r)"
    using r by (metis hd_append2 rev_is_Nil_conv)
  with h have "hd (strip_chars cs s) \<notin> set cs"
    by (simp add: strip_chars_def)
  with l show ?thesis by simp
qed

section \<open>Properties of the Settings operations\<close>

subsection \<open>The principal name\<close>

text \<open>
  C1. get_user_principal_name follows the case analysis: None and the empty string give
  None; a name with an at sign is returned as it is; a name with a backslash and no at
  sign is split at every backslash (the parts hold no backslash, joined by backslashes
  they are the name, and there is one part more than there are backslashes) and the
  parts, reversed, are joined by at signs; any other name gives None. The function is
  total: its value is None or Some principal, never an exception.
\<close>

theorem get_user_principal_name_cases:
  "get_user_principal_name None = None \<and>
   get_user_principal_name (Some []) = None \<and>
   (CHR ''@'' \<in> set u \<longrightarrow> get_user_principal_name (Some u) = Some u) \<and>
   (CHR ''@'' \<notin> set u \<and> backslash \<in> set u \<longrightarrow>
      (\<exists>parts. join [backslash] parts = u \<and> (\<forall>p\<in>set parts. backslash \<notin> set p) \<and>
         length parts = Suc (length (filter (\<lambda>c. c = backslash) u)) \<and>
         parts = split_chr backslash u \<and>
         get_user_principal_name (Some u) = Some (join ''@'' (rev parts)))) \<and>
   (CHR ''@'' \<notin> set u \<and> backslash \<notin> set u \<longrightarrow> get_user_principal_name (Some u) = None) \<and>
   get_user_principal_name (Some (''domain'' @ [backslash] @ ''user'')) = Some ''user@domain'' \<and>
   get_user_principal_name (Some (''a'' @ [backslash] @ ''b'' @ [backslash] @ ''c''))
     = Some ''c@b@a''"
proof -
  have none: "get_user_principal_name None = None"
    by (simp add: get_user_principal_name_def)
  have empty: "get_user_principal_name (Some []) = None"
    by (simp add: get_user_principal_name_def)
  have at: "CHR ''@'' \<in> set u \<longrightarrow> get_user_principal_name (Some u) = Some u"
    by (simp add: get_user_principal_name_def)
  have bs: "CHR ''@'' \<notin> set u \<and> backslash \<in> set u \<longrightarrow>
      (\<exists>parts. join [backslash] parts = u \<and> (\<forall>p\<in>set parts. backslash \<notin> set p) \<and>
         length parts = Suc (length (filter (\<lambda>c. c = backslash) u)) \<and>
         parts = split_chr backslash u \<and>
         get_user_principal_name (Some u) = Some (join ''@'' (rev parts)))"
    using split_chr_parts [of _ backslash u]
    by (simp add: get_user_principal_name_def join_split_chr length_split_chr)
  have other: "CHR ''@'' \<notin> set u \<and> backslash \<notin> set u \<longrightarrow>
      get_user_principal_name (Some u) = None"
    by (simp add: get_user_principal_name_def)
  have ex1: "get_user_principal_name (Some (''domain'' @ [backslash] @ ''user''))
      = Some ''user@domain''"
    by (simp add: get_user_principal_name_def backslash_def)
  have ex2: "get_user_principal_name (Some (''a'' @ [backslash] @ ''b'' @ [backslash] @ ''c''))
      = Some ''c@b@a''"
    by (simp add: get_user_principal_name_def backslash_def)
  from none empty at bs other ex1 ex2 show ?thesis by blast
qed

theorem get_user_principal_name_cases_witness:
  "get_user_principal_name (Some ''alice@corp.example.com'') = Some ''alice@corp.example.com'' \<and>
   get_user_principal_name (Some (''corp'' @ [backslash] @ ''alice'')) = Some ''alice@corp'' \<and>
   split_chr backslash (''corp'' @ [backslash] @ ''alice'') = [''corp'', ''alice''] \<and>
   get_user_principal_name (Some ''plainuser'') = None"
proof -
  have a: "CHR ''@'' \<in> set ''alice@corp.example.com''" by simp
  have b: "CHR ''@'' \<notin> set (''corp'' @ [backslash] @ ''alice'') \<and>
           backslash \<in> set (''corp'' @ [backslash] @ ''alice'')"
    by (simp add: backslash_def)
  have c: "CHR ''@'' \<notin> set ''plainuser'' \<and> backslash \<notin> set ''plainuser''"
    by (simp add: backslash_def)
  have s: "split_chr backslash (''corp'' @ [backslash] @ ''alice'') = [''corp'', ''alice'']"
    by (simp add: backslash_def)
  from a get_user_principal_name_cases [of "''alice@corp.example.com''"]
  have 1: "get_user_principal_name (Some ''alice@corp.example.com'')
      = Some ''alice@corp.example.com''" by blast
  from get_user_principal_name_cases [of "''corp'' @ [backslash] @ ''alice''",
      THEN conjunct2, THEN conjunct2, THEN conjunct2, THEN conjunct1, THEN mp, OF b]
  have "get_user_principal_name (Some (''corp'' @ [backslash] @ ''alice''))
      = Some (join ''@'' (rev (split_chr backslash (''corp'' @ [backslash] @ ''alice''))))"
    by (elim exE conjE) (simp only:)
  then have 2: "get_user_principal_name (Some (''corp'' @ [backslash] @ ''alice''))
      = Some ''alice@corp''"
    by (simp add: backslash_def)
  from c get_user_principal_name_cases [of "''plainuser''"]
  have 3: "get_user_principal_name (Some ''plainuser'') = None" by blast
  from 1 2 3 s show ?thesis by (simp add: backslash_def)
qed

subsection \<open>The search base\<close>

lemma last_split_chr:
  "last (split_chr sep s) \<noteq> [] \<Longrightarrow> last (last (split_chr sep s)) = last s"
proof (induction s)
  case Nil
  then show ?case by simp
next
  case (Cons c cs)
  obtain p ps where ps: "split_chr sep cs = p # ps"
    using split_chr_not_Nil [of sep cs] by (cases "split_chr sep cs") auto
  have cs: "cs = join [sep] (p # ps)"
    using join_split_chr [of sep cs] ps by simp
  show ?case
  proof (cases "ps = []")
    case True
    with cs have "cs = p" by simp
    with True ps Cons.prems show ?thesis by (auto split: if_splits)
  next
    case False
    with cs have ne: "cs \<noteq> []" by (cases ps) auto
    from False ps have "last (split_chr sep (c # cs)) = last (split_chr sep cs)"
      by auto
    with Cons ne show ?thesis by simp
  qed
qed

lemma concat_dc_join:
  "ls \<noteq> [] \<Longrightarrow>
   concat (map (\<lambda>l. ''dc='' @ l @ '','') ls) = join '','' (map (\<lambda>l. ''dc='' @ l) ls) @ '',''"
proof (induction ls)
  case Nil
  then show ?case by simp
next
  case (Cons l ls)
  then show ?case by (cases ls) auto
qed

lemma join_dc_ends:
  "ls \<noteq> [] \<Longrightarrow>
   join '','' (map (\<lambda>l. ''dc='' @ l) ls) \<noteq> [] \<and>
   hd (join '','' (map (\<lambda>l. ''dc='' @ l) ls)) = CHR ''d'' \<and>
   last (join '','' (map (\<lambda>l. ''dc='' @ l) ls))
     = (if last ls = [] then CHR ''='' else last (last ls))"
proof (induction ls)
  case Nil
  then show ?case by simp
next
  case (Cons l ls)
  then show ?case by (cases ls) auto
qed

lemma strip_chars_trailing:
  "x \<noteq> [] \<Longrightarrow> hd x \<noteq> c \<Longrightarrow> last x \<noteq> c \<Longrightarrow> strip_chars [c] (x @ [c]) = x"
proof -
  assume x: "x \<noteq> []" and h: "hd x \<noteq> c" and l: "last x \<noteq> c"
  from x h have 1: "dropWhile (\<lambda>a. a \<in> set [c]) (x @ [c]) = x @ [c]"
    by (cases x) auto
  from x l have 2: "dropWhile (\<lambda>a. a \<in> set [c]) (rev x) = rev x"
    by (cases x rule: rev_cases) auto
  show ?thesis
    unfolding strip_chars_def 1 using 2 by simp
qed

text \<open>Where the domain of the principal does not end in a comma, get_search_base is
  the labels of the domain, each after \<^verbatim>\<open>dc=\<close>, joined by commas.\<close>

lemma get_search_base_join:
  assumes p: "get_user_principal_name (username s) = Some (usr @ CHR ''@'' # d)"
    and usr: "CHR ''@'' \<notin> set usr" and d: "CHR ''@'' \<notin> set d"
    and comma: "d = [] \<or> last d \<noteq> CHR '',''"
  shows "get_search_base s
    = Inr (join '','' (map (\<lambda>l. ''dc='' @ l) (split_chr (CHR ''.'') d)))"
proof -
  let ?ls = "split_chr (CHR ''.'') d"
  let ?x = "join '','' (map (\<lambda>l. ''dc='' @ l) ?ls)"
  have parts: "split_chr (CHR ''@'') (usr @ CHR ''@'' # d) = [usr, d]"
    using usr d by (simp add: split_chr_append split_chr_absent)
  have ls: "?ls \<noteq> []" by (rule split_chr_not_Nil)
  have cat: "concat (map (\<lambda>l. ''dc='' @ l @ '','') ?ls) = ?x @ '',''"
    using ls by (rule concat_dc_join)
  have ends: "?x \<noteq> [] \<and> hd ?x = CHR ''d'' \<and>
      last ?x = (if last ?ls = [] then CHR ''='' else last (last ?ls))"
    using ls by (rule join_dc_ends)
  have "last ?x \<noteq> CHR '',''"
  proof (cases "last ?ls = []")
    case True
    with ends show ?thesis by simp
  next
    case False
    then have l: "last (last ?ls) = last d" by (rule last_split_chr)
    from False have "d \<noteq> []" by auto
    with comma l ends False show ?thesis by simp
  qed
  with ends have "strip_chars '','' (?x @ '','') = ?x"
    by (intro strip_chars_trailing) simp_all
  with p parts cat show ?thesis
    by (simp add: get_search_base_def)
qed

lemma get_search_base_examples:
  "get_search_base \<lparr>username = Some ''alice@corp.example.com'', password = Some ''secret'',
      domain = ''dc1.corp.example.com'', ssl = False, port = 389\<rparr>
     = Inr ''dc=corp,dc=example,dc=com'' \<and>
   get_search_base \<lparr>username = Some ''alice@single'', password = Some ''secret'',
      domain = ''single'', ssl = False, port = 389\<rparr>
     = Inr ''dc=single''"
  by (simp add: get_search_base_def get_user_principal_name_def strip_chars_def)

text \<open>
  C2, as the claim states it, fails: at the stored username \<^verbatim>\<open>alice@corp.com,\<close> the
  labels of the domain are \<^verbatim>\<open>corp\<close> and \<^verbatim>\<open>com,\<close>, which wrapped and joined by commas
  are \<^verbatim>\<open>dc=corp,dc=com,\<close>; get_search_base returns \<^verbatim>\<open>dc=corp,dc=com\<close>, since its
  strip removes the comma of the label along with the separator after it.
\<close>

theorem get_search_base_strips_label_comma:
  "get_user_principal_name (Some ''alice@corp.com,'') = Some ''alice@corp.com,'' \<and>
   split_chr (CHR ''.'') ''corp.com,'' = [''corp'', ''com,''] \<and>
   join '','' (map (\<lambda>l. ''dc='' @ l) (split_chr (CHR ''.'') ''corp.com,''))
     = ''dc=corp,dc=com,'' \<and>
   get_search_base \<lparr>username = Some ''alice@corp.com,'', password = Some ''secret'',
      domain = ''dc1.corp.com'', ssl = False, port = 389\<rparr>
     = Inr ''dc=corp,dc=com''"
  by (simp add: get_search_base_def get_user_principal_name_def strip_chars_def)

lemma strip_chars_trailing_sep:
  assumes x: "x \<noteq> []" and h: "hd x \<noteq> c"
  shows "strip_chars [c] (x @ [c]) = strip_chars [c] x"
proof -
  from x h have 1: "dropWhile (\<lambda>a. a \<in> set [c]) (x @ [c]) = x @ [c]"
    by (cases x) auto
  from x h have 2: "dropWhile (\<lambda>a. a \<in> set [c]) x = x"
    by (cases x) auto
  show ?thesis
    unfolding strip_chars_def 1 2 by simp
qed

lemma strip_chars_keeps_head:
  assumes x: "x \<noteq> []" and h: "hd x \<noteq> c"
  shows "strip_chars [c] x \<noteq> []"
proof
  assume e: "strip_chars [c] x = []"
  obtain a b where ab: "x = a @ strip_chars [c] x @ b"
    and a: "set a \<subseteq> set [c]" and b: "set b \<subseteq> set [c]"
    using strip_chars_decomp [of x "[c]"] by blast
  from ab e have "set x = set a \<union> set b"
    by (metis append_Nil set_append)
  with a b have "set x \<subseteq> {c}" by auto
  moreover from x have "hd x \<in> set x" by simp
  ultimately show False using h by auto
qed

lemma exactly_one_sep:
  assumes "length (filter (\<lambda>c. c = sep) p) = 1"
  shows "\<exists>usr d. split_chr sep p = [usr, d] \<and> p = usr @ sep # d \<and>
           sep \<notin> set usr \<and> sep \<notin> set d"
proof -
  from assms have "length (split_chr sep p) = 2"
    by (simp add: length_split_chr)
  then obtain usr d where parts: "split_chr sep p = [usr, d]"
    by (cases "split_chr sep p" rule: list.exhaust [case_product list.exhaust])
       (auto simp: length_Suc_conv)
  with join_split_chr [of sep p] have "p = usr @ sep # d" by simp
  moreover from parts split_chr_parts [of _ sep p] have "sep \<notin> set usr \<and> sep \<notin> set d"
    by simp
  ultimately show ?thesis using parts by blast
qed

text \<open>
  C2, amended. For a principal with one at sign, get_search_base is the labels of the
  domain (the text after the at sign, split at every dot), each wrapped as
  \<^verbatim>\<open>dc=label\<close> in their order and joined by commas, with every trailing comma then
  stripped from the joined text. The result is not empty and does not end in a comma.
  Where the domain does not end in a comma, it is the joined text itself.
\<close>

theorem get_search_base_labels:
  assumes p: "get_user_principal_name (username s) = Some p"
    and one: "length (filter (\<lambda>c. c = CHR ''@'') p) = 1"
  shows "\<exists>usr d r.
     split_chr (CHR ''@'') p = [usr, d] \<and> p = usr @ CHR ''@'' # d \<and>
     get_search_base s = Inr r \<and>
     r = strip_chars '','' (join '','' (map (\<lambda>l. ''dc='' @ l) (split_chr (CHR ''.'') d))) \<and>
     r \<noteq> [] \<and> last r \<noteq> CHR '','' \<and>
     (d = [] \<or> last d \<noteq> CHR '','' \<longrightarrow>
        r = join '','' (map (\<lambda>l. ''dc='' @ l) (split_chr (CHR ''.'') d)))"
proof -
  from exactly_one_sep [OF one] obtain usr d where
    parts: "split_chr (CHR ''@'') p = [usr, d]" and dec: "p = usr @ CHR ''@'' # d"
    and usr: "CHR ''@'' \<notin> set usr" and d: "CHR ''@'' \<notin> set d"
    by blast
  let ?ls = "split_chr (CHR ''.'') d"
  let ?x = "join '','' (map (\<lambda>l. ''dc='' @ l) ?ls)"
  let ?r = "strip_chars '','' ?x"
  have ls: "?ls \<noteq> []" by (rule split_chr_not_Nil)
  have cat: "concat (map (\<lambda>l. ''dc='' @ l @ '','') ?ls) = ?x @ '',''"
    using ls by (rule concat_dc_join)
  have ends: "?x \<noteq> [] \<and> hd ?x = CHR ''d'' \<and>
      last ?x = (if last ?ls = [] then CHR ''='' else last (last ?ls))"
    using ls by (rule join_dc_ends)
  then have x: "?x \<noteq> []" and h: "hd ?x \<noteq> CHR '',''" by simp_all
  have "strip_chars '','' (?x @ '','') = ?r"
    using x h by (rule strip_chars_trailing_sep)
  with p parts cat have base: "get_search_base s = Inr ?r"
    by (simp add: get_search_base_def)
  have ne: "?r \<noteq> []"
    using x h by (rule strip_chars_keeps_head)
  then have l: "last ?r \<noteq> CHR '',''"
    using strip_chars_ends [of "'',''" ?x] by simp
  have exact: "d = [] \<or> last d \<noteq> CHR '','' \<longrightarrow> ?r = ?x"
  proof
    assume comma: "d = [] \<or> last d \<noteq> CHR '',''"
    from p dec have "get_user_principal_name (username s) = Some (usr @ CHR ''@'' # d)"
      by simp
    from get_search_base_join [OF this usr d comma] base show "?r = ?x" by simp
  qed
  from parts dec base ne l exact show ?thesis by blast
qed

theorem get_search_base_labels_witness:
  "get_search_base \<lparr>username = Some ''alice@corp.example.com'', password = Some ''secret'',
      domain = ''dc1.corp.example.com'', ssl = False, port = 389\<rparr>
     = Inr ''dc=corp,dc=example,dc=com''"
proof -
  let ?s = "\<lparr>username = Some ''alice@corp.example.com'', password = Some ''secret'',
      domain = ''dc1.corp.example.com'', ssl = False, port = 389\<rparr>"
  have p: "get_user_principal_name (username ?s) = Some ''alice@corp.example.com''"
    by (simp add: get_user_principal_name_def)
  have one: "length (filter (\<lambda>c. c = CHR ''@'') ''alice@corp.example.com'') = 1"
    by simp
  from get_search_base_labels [OF p one] obtain usr d r where
    parts: "split_chr (CHR ''@'') ''alice@corp.example.com'' = [usr, d]"
    and base: "get_search_base ?s = Inr r"
    and exact: "d = [] \<or> last d \<noteq> CHR '','' \<longrightarrow>
        r = join '','' (map (\<lambda>l. ''dc='' @ l) (split_chr (CHR ''.'') d))"
    by blast
  from parts have d: "d = ''corp.example.com''" by simp
  with exact have "r = ''dc=corp,dc=example,dc=com''" by simp
  with base show ?thesis by simp
qed

subsection \<open>Stripping, and the searches in the log\<close>

lemma strip_Nil: "strip [] = []"
  by (simp add: strip_def strip_chars_def)

lemma strip_decomp:
  "\<exists>a b. s = a @ strip s @ b \<and> set a \<subseteq> set whitespace \<and> set b \<subseteq> set whitespace"
  unfolding strip_def by (rule strip_chars_decomp)

lemma strip_ends:
  "strip s \<noteq> [] \<Longrightarrow> hd (strip s) \<notin> set whitespace \<and> last (strip s) \<notin> set whitespace"
  unfolding strip_def by (rule strip_chars_ends)

text \<open>What a search that get_users_info_ad issues was built from.\<close>

lemma get_users_info_ad_search:
  assumes "PagedSearch c req \<in> set (snd (get_users_info_ad d s lu lp users attrs))"
  shows "build_search_filter users = Inr (search_filter req) \<and>
         get_search_base s = Inr (search_base req) \<and>
         search_scope req = SUBTREE \<and> attributes req = attrs \<and> paged_size req = 500 \<and>
         fst (get_connection d s lu lp) = Inr (Some c)"
  using assms
  by (auto simp: get_users_info_ad_def get_connection_def Let_def
           split: sum.splits option.splits prod.splits)

subsection \<open>The search filter\<close>

text \<open>
  C3. The filter of get_users_info_ad: for no users, an empty list or an empty tuple it
  is \<^verbatim>\<open>(objectClass=person)\<close>; for a list or tuple that is not empty, each user is
  stripped of the whitespace around it and wrapped as \<^verbatim>\<open>(sAMAccountName=user)\<close>, the
  terms are concatenated in the order of the list inside \<^verbatim>\<open>(|...)\<close>, and that group
  stands after \<^verbatim>\<open>(objectClass=person)\<close> inside \<^verbatim>\<open>(&...)\<close>. A search that the call
  issues carries this filter.
\<close>

theorem search_filter_built:
  "build_search_filter UsersNone = Inr ''(objectClass=person)'' \<and>
   build_search_filter (UsersList []) = Inr ''(objectClass=person)'' \<and>
   build_search_filter (UsersTuple []) = Inr ''(objectClass=person)'' \<and>
   (us \<noteq> [] \<longrightarrow>
      build_search_filter (UsersList us)
        = Inr (''(&(objectClass=person)(|''
               @ concat (map (\<lambda>user. ''(sAMAccountName='' @ strip user @ '')'') us) @ ''))'') \<and>
      build_search_filter (UsersTuple us) = build_search_filter (UsersList us)) \<and>
   (\<forall>user\<in>set us.
      (\<exists>a b. user = a @ strip user @ b \<and> set a \<subseteq> set whitespace \<and> set b \<subseteq> set whitespace) \<and>
      (strip user = [] \<or>
         hd (strip user) \<notin> set whitespace \<and> last (strip user) \<notin> set whitespace)) \<and>
   (PagedSearch c req \<in> set (snd (get_users_info_ad d s lu lp users attrs)) \<longrightarrow>
      build_search_filter users = Inr (search_filter req)) \<and>
   build_search_filter (UsersList [''bob'', ''carol''])
     = Inr ''(&(objectClass=person)(|(sAMAccountName=bob)(sAMAccountName=carol)))''"
proof -
  have empty: "build_search_filter UsersNone = Inr ''(objectClass=person)'' \<and>
      build_search_filter (UsersList []) = Inr ''(objectClass=person)'' \<and>
      build_search_filter (UsersTuple []) = Inr ''(objectClass=person)''"
    by simp
  have given: "us \<noteq> [] \<longrightarrow>
      build_search_filter (UsersList us)
        = Inr (''(&(objectClass=person)(|''
               @ concat (map (\<lambda>user. ''(sAMAccountName='' @ strip user @ '')'') us) @ ''))'') \<and>
      build_search_filter (UsersTuple us) = build_search_filter (UsersList us)"
    by simp
  have trimmed: "\<forall>user\<in>set us.
      (\<exists>a b. user = a @ strip user @ b \<and> set a \<subseteq> set whitespace \<and> set b \<subseteq> set whitespace) \<and>
      (strip user = [] \<or>
         hd (strip user) \<notin> set whitespace \<and> last (strip user) \<notin> set whitespace)"
    using strip_decomp strip_ends by blast
  have sent: "PagedSearch c req \<in> set (snd (get_users_info_ad d s lu lp users attrs)) \<longrightarrow>
      build_search_filter users = Inr (search_filter req)"
    using get_users_info_ad_search by blast
  have ex: "build_search_filter (UsersList [''bob'', ''carol''])
     = Inr ''(&(objectClass=person)(|(sAMAccountName=bob)(sAMAccountName=carol)))''"
    by (simp add: strip_def strip_chars_def whitespace_def)
  from empty given trimmed sent ex show ?thesis by blast
qed

theorem search_filter_built_witness:
  "build_search_filter (UsersList ['' bob'', ''carol ''])
     = Inr ''(&(objectClass=person)(|(sAMAccountName=bob)(sAMAccountName=carol)))'' \<and>
   build_search_filter (UsersTuple ['' bob'', ''carol ''])
     = Inr ''(&(objectClass=person)(|(sAMAccountName=bob)(sAMAccountName=carol)))'' \<and>
   PagedSearch example_connection
      \<lparr>search_base = ''dc=corp,dc=example,dc=com'',
       search_filter = ''(&(objectClass=person)(|(sAMAccountName=bob)(sAMAccountName=carol)))'',
       search_scope = SUBTREE, attributes = ''*'', paged_size = 500\<rparr>
     \<in> set (snd (get_users_info_ad accepting_directory example_settings None None
                  (UsersList ['' bob'', ''carol '']) ''*''))"
proof -
  let ?us = "['' bob'', ''carol '']"
  let ?req = "\<lparr>search_base = ''dc=corp,dc=example,dc=com'',
       search_filter = ''(&(objectClass=person)(|(sAMAccountName=bob)(sAMAccountName=carol)))'',
       search_scope = SUBTREE, attributes = ''*'', paged_size = 500\<rparr>"
  note t = search_filter_built [where us = ?us and users = "UsersList ?us"
      and d = accepting_directory and s = example_settings and lu = None and lp = None
      and attrs = "''*''" and c = example_connection and req = ?req]
  have ne: "?us \<noteq> []" by simp
  have st: "map strip ?us = [''bob'', ''carol'']"
    by (simp add: strip_def strip_chars_def whitespace_def)
  have log: "PagedSearch example_connection ?req
     \<in> set (snd (get_users_info_ad accepting_directory example_settings None None
                  (UsersList ?us) ''*''))"
    by (simp add: settings_defs string_defs example_defs)
  from t ne have "build_search_filter (UsersList ?us)
        = Inr (''(&(objectClass=person)(|''
               @ concat (map (\<lambda>user. ''(sAMAccountName='' @ strip user @ '')'') ?us) @ ''))'') \<and>
      build_search_filter (UsersTuple ?us) = build_search_filter (UsersList ?us)"
    by blast
  with st log show ?thesis by simp
qed

subsection \<open>Saving the settings\<close>

text \<open>
  C7, as the claim states it, fails: a row with a username and no password is saved
  as it is, so after the save the username is present and the password is absent.
\<close>

theorem save_keeps_username_without_password:
  "username (save \<lparr>username = Some ''admin@corp.example.com'', password = None,
      domain = ''dc1.corp.example.com'', ssl = False, port = 389\<rparr>)
     = Some ''admin@corp.example.com'' \<and>
   password (save \<lparr>username = Some ''admin@corp.example.com'', password = None,
      domain = ''dc1.corp.example.com'', ssl = False, port = 389\<rparr>)
     = None"
  by (simp add: save_def string_defs)

text \<open>
  C7, amended. save stores the domain stripped of the whitespace around it, and the
  username stripped likewise; when the stripped username is empty or the username is
  absent, the stored username and the stored password are both absent. So after every
  save an absent username has an absent password, and a stored username is not empty
  and has no whitespace at either end. A username that is kept leaves the password as
  it was, present or absent. ssl and port are not touched.
\<close>

theorem save_normalises:
  "domain (save s) = strip (domain s) \<and>
   username (save s)
     = (case username s of
          None \<Rightarrow> None
        | Some u \<Rightarrow> if strip u = [] then None else Some (strip u)) \<and>
   (username (save s) = None \<longrightarrow> password (save s) = None) \<and>
   (username (save s) \<noteq> None \<longrightarrow> password (save s) = password s) \<and>
   (\<forall>v. username (save s) = Some v \<longrightarrow>
      v \<noteq> [] \<and> hd v \<notin> set whitespace \<and> last v \<notin> set whitespace) \<and>
   ssl (save s) = ssl s \<and> port (save s) = port s"
proof -
  have dom: "domain (save s) = strip (domain s)"
    by (simp add: save_def Let_def strip_Nil)
  have usr: "username (save s)
     = (case username s of
          None \<Rightarrow> None
        | Some u \<Rightarrow> if strip u = [] then None else Some (strip u))"
    by (cases "username s") (simp_all add: save_def Let_def strip_Nil)
  have absent: "username (save s) = None \<longrightarrow> password (save s) = None"
    by (cases "username s") (simp_all add: save_def Let_def strip_Nil)
  have kept: "username (save s) \<noteq> None \<longrightarrow> password (save s) = password s"
    by (cases "username s") (simp_all add: save_def Let_def strip_Nil)
  have trimmed: "\<forall>v. username (save s) = Some v \<longrightarrow>
      v \<noteq> [] \<and> hd v \<notin> set whitespace \<and> last v \<notin> set whitespace"
    unfolding usr using strip_ends
    by (auto split: option.splits if_splits)
  have rest: "ssl (save s) = ssl s \<and> port (save s) = port s"
    by (simp add: save_def Let_def)
  from dom usr absent kept trimmed rest show ?thesis by blast
qed

theorem save_normalises_witness:
  "save \<lparr>username = Some ''  '', password = Some ''secret'',
      domain = '' dc1.corp.example.com '', ssl = False, port = 389\<rparr>
     = \<lparr>username = None, password = None,
        domain = ''dc1.corp.example.com'', ssl = False, port = 389\<rparr> \<and>
   save \<lparr>username = Some '' admin@corp.example.com '', password = Some ''secret'',
      domain = ''dc1.corp.example.com'', ssl = True, port = 636\<rparr>
     = \<lparr>username = Some ''admin@corp.example.com'', password = Some ''secret'',
        domain = ''dc1.corp.example.com'', ssl = True, port = 636\<rparr>"
proof -
  let ?blank = "\<lparr>username = Some ''  '', password = Some ''secret'',
      domain = '' dc1.corp.example.com '', ssl = False, port = 389\<rparr>"
  let ?padded = "\<lparr>username = Some '' admin@corp.example.com '', password = Some ''secret'',
      domain = ''dc1.corp.example.com'', ssl = True, port = 636\<rparr>"
  have s1: "strip ''  '' = [] \<and> strip '' dc1.corp.example.com '' = ''dc1.corp.example.com''"
    by (simp add: string_defs)
  have s2: "strip '' admin@corp.example.com '' = ''admin@corp.example.com'' \<and>
      strip ''dc1.corp.example.com'' = ''dc1.corp.example.com''"
    by (simp add: string_defs)
  from save_normalises [of ?blank] s1
  have b: "domain (save ?blank) = ''dc1.corp.example.com'' \<and> username (save ?blank) = None \<and>
      password (save ?blank) = None \<and> ssl (save ?blank) = False \<and> port (save ?blank) = 389"
    by simp
  from save_normalises [of ?padded] s2
  have p: "domain (save ?padded) = ''dc1.corp.example.com'' \<and>
      username (save ?padded) = Some ''admin@corp.example.com'' \<and>
      password (save ?padded) = Some ''secret'' \<and> ssl (save ?padded) = True \<and>
      port (save ?padded) = 636"
    by simp
  from b have "save ?blank = \<lparr>username = None, password = None,
        domain = ''dc1.corp.example.com'', ssl = False, port = 389\<rparr>"
    by (cases "save ?blank") simp
  moreover from p have "save ?padded
     = \<lparr>username = Some ''admin@corp.example.com'', password = Some ''secret'',
        domain = ''dc1.corp.example.com'', ssl = True, port = 636\<rparr>"
    by (cases "save ?padded") simp
  ultimately show ?thesis by simp
qed

subsection \<open>Opening the connection\<close>

text \<open>get_connection makes the server object of the settings and, if its constructor
  raises, ends with that exception and no bind. Otherwise it makes one bind, with that
  server, the principal of the effective username and the effective password, and
  returns what the bind gives.\<close>

lemma get_connection_bind:
  "get_connection d s lu lp =
     (let srv = \<lparr>host = domain s, server_port = port s, use_ssl = ssl s\<rparr>
      in case dir_server d srv of
           Some e \<Rightarrow> (Inl e, [])
         | None \<Rightarrow>
             let c = \<lparr>conn_server = srv,
                      conn_user = get_user_principal_name (fst (effective_credentials s lu lp)),
                      conn_password = snd (effective_credentials s lu lp)\<rparr>
             in (case dir_bind d c of Some e \<Rightarrow> Inl e | None \<Rightarrow> Inr (Some c), [Bind c]))"
  by (simp add: get_connection_def Let_def split: prod.splits option.splits)

text \<open>A connection that get_connection returns has been bound once, and nothing else
  is in the log.\<close>

lemma get_connection_opened:
  "get_connection d s lu lp = (Inr (Some c), log) \<Longrightarrow> log = [Bind c]"
  by (auto simp: get_connection_bind Let_def split: option.splits)

text \<open>Where the switch of lines 74 to 76 goes.\<close>

lemma effective_credentials_cases:
  "(truthy lu \<longrightarrow> effective_credentials s lu lp = (lu, lp)) \<and>
   (\<not> truthy lu \<longrightarrow> effective_credentials s lu lp = (username s, password s))"
  by (simp add: effective_credentials_def)

text \<open>
  C9. The credentials of the bind should be the override pair when both are given and
  the stored username and password otherwise. With the override username
  \<^verbatim>\<open>bob@corp.example.com\<close> and no override password the stored pair is due, and the
  docstring of get_connection too puts the stored password in the place of a password
  that is \<^verbatim>\<open>None\<close>; get_connection binds with the override username and no password.
\<close>

theorem get_connection_override_without_password:
  "effective_credentials_spec example_settings (Some ''bob@corp.example.com'') None
     = (Some ''admin@corp.example.com'', Some ''secret'') \<and>
   effective_credentials_docstring example_settings (Some ''bob@corp.example.com'') None
     = (Some ''bob@corp.example.com'', Some ''secret'') \<and>
   effective_credentials example_settings (Some ''bob@corp.example.com'') None
     = (Some ''bob@corp.example.com'', None) \<and>
   snd (get_connection accepting_directory example_settings (Some ''bob@corp.example.com'') None)
     = [Bind \<lparr>conn_server =
                 \<lparr>host = ''dc1.corp.example.com'', server_port = 389, use_ssl = False\<rparr>,
               conn_user = Some ''bob@corp.example.com'', conn_password = None\<rparr>]"
  by (simp add: effective_credentials_spec_def effective_credentials_docstring_def
      settings_defs example_defs)

text \<open>
  C5, as the claim states it, fails: the login \<^verbatim>\<open>plainuser\<close> has no principal, and
  get_connection binds with no user and returns the connection that the directory
  accepts.
\<close>

theorem get_connection_binds_without_principal:
  "get_user_principal_name (Some ''plainuser'') = None \<and>
   get_connection accepting_directory example_settings (Some ''plainuser'') (Some ''guess'')
     = (Inr (Some \<lparr>conn_server =
                      \<lparr>host = ''dc1.corp.example.com'', server_port = 389, use_ssl = False\<rparr>,
                    conn_user = None, conn_password = Some ''guess''\<rparr>),
        [Bind \<lparr>conn_server =
                 \<lparr>host = ''dc1.corp.example.com'', server_port = 389, use_ssl = False\<rparr>,
               conn_user = None, conn_password = Some ''guess''\<rparr>])"
  by (simp add: settings_defs string_defs example_defs)

text \<open>
  C5, amended. When the effective login has no principal, get_connection makes no
  check of the principal and raises nothing of its own. If the constructor of the
  server object raises (a port or host that ldap3 refuses), that exception ends the
  call and no bind is made. Otherwise it makes one bind with no user and the effective
  password, and its result is the result of that bind: the connection when the
  directory accepts it and the exception of the bind otherwise.
\<close>

theorem get_connection_without_principal:
  "get_user_principal_name (fst (effective_credentials s lu lp)) = None \<Longrightarrow>
   get_connection d s lu lp =
     (let srv = \<lparr>host = domain s, server_port = port s, use_ssl = ssl s\<rparr>
      in case dir_server d srv of
           Some e \<Rightarrow> (Inl e, [])
         | None \<Rightarrow>
             let c = \<lparr>conn_server = srv, conn_user = None,
                      conn_password = snd (effective_credentials s lu lp)\<rparr>
             in (case dir_bind d c of Some e \<Rightarrow> Inl e | None \<Rightarrow> Inr (Some c), [Bind c]))"
  by (simp add: get_connection_bind Let_def split: option.splits)

theorem get_connection_without_principal_witness:
  "get_connection
      \<lparr>dir_server = (\<lambda>srv. None), dir_bind = (\<lambda>c. Some LDAPBindError),
       dir_paged_search = (\<lambda>c req. ([], None))\<rparr>
      example_settings (Some ''plainuser'') (Some ''guess'')
     = (Inl LDAPBindError,
        [Bind \<lparr>conn_server =
                 \<lparr>host = ''dc1.corp.example.com'', server_port = 389, use_ssl = False\<rparr>,
               conn_user = None, conn_password = Some ''guess''\<rparr>]) \<and>
   get_connection accepting_directory (example_settings\<lparr>port := 65535\<rparr>)
      (Some ''plainuser'') (Some ''guess'')
     = (Inl LDAPInvalidPortError, [])"
proof -
  let ?refusing = "\<lparr>dir_server = (\<lambda>srv. None), dir_bind = (\<lambda>c. Some LDAPBindError),
       dir_paged_search = (\<lambda>c req. ([], None))\<rparr>"
  have n: "get_user_principal_name
      (fst (effective_credentials example_settings (Some ''plainuser'') (Some ''guess''))) = None"
    by (simp add: effective_credentials_def get_user_principal_name_def backslash_def)
  have m: "get_user_principal_name
      (fst (effective_credentials (example_settings\<lparr>port := 65535\<rparr>)
              (Some ''plainuser'') (Some ''guess''))) = None"
    by (simp add: effective_credentials_def get_user_principal_name_def backslash_def)
  from get_connection_without_principal [OF n, of ?refusing]
  have 1: "get_connection ?refusing example_settings (Some ''plainuser'') (Some ''guess'')
     = (Inl LDAPBindError,
        [Bind \<lparr>conn_server =
                 \<lparr>host = ''dc1.corp.example.com'', server_port = 389, use_ssl = False\<rparr>,
               conn_user = None, conn_password = Some ''guess''\<rparr>])"
    by (simp add: effective_credentials_def example_settings_def Let_def)
  from get_connection_without_principal [OF m, of accepting_directory]
  have 2: "get_connection accepting_directory (example_settings\<lparr>port := 65535\<rparr>)
      (Some ''plainuser'') (Some ''guess'') = (Inl LDAPInvalidPortError, [])"
    by (simp add: effective_credentials_def example_settings_def accepting_directory_def
        Let_def)
  from 1 2 show ?thesis by (rule conjI)
qed

subsection \<open>The runs of get_users_info_ad\<close>

lemma collect_entries_filter:
  "collect_entries results entries
     = results @ filter (\<lambda>entry. entry_get entry ''type'' \<noteq> Some ''searchResRef'') entries"
  by (induction entries arbitrary: results) simp_all

text \<open>The ways a call of get_users_info_ad ends once the filter and the search base
  are there: get_connection raises (in the constructor of the server object or in the
  bind), the search raises, or the search completes.\<close>

lemma get_users_info_ad_run:
  assumes flt: "build_search_filter users = Inr flt"
    and base: "get_search_base s = Inr base"
    and conn: "get_connection d s lu lp = (r, log)"
  shows "get_users_info_ad d s lu lp users attrs =
     (case r of
        Inl e \<Rightarrow> (Inl e, log)
      | Inr None \<Rightarrow> (Inl (LDAPException ''No active AD connections found''), log)
      | Inr (Some c) \<Rightarrow>
          (let req = \<lparr>search_base = base, search_filter = flt, search_scope = SUBTREE,
                      attributes = attrs, paged_size = 500\<rparr>
           in case dir_paged_search d c req of
                (entries, Some e) \<Rightarrow> (Inl e, log @ [PagedSearch c req])
              | (entries, None) \<Rightarrow>
                  (Inr (filter (\<lambda>entry. entry_get entry ''type'' \<noteq> Some ''searchResRef'')
                          entries),
                   log @ [PagedSearch c req, Unbind c])))"
  using flt base conn
  by (simp add: get_users_info_ad_def collect_entries_filter Let_def
           split: sum.splits option.splits prod.splits)

lemma get_users_info_ad_no_filter:
  "build_search_filter users = Inl e \<Longrightarrow>
   get_users_info_ad d s lu lp users attrs = (Inl e, [])"
  by (simp add: get_users_info_ad_def)

lemma get_users_info_ad_no_base:
  "build_search_filter users = Inr flt \<Longrightarrow> get_search_base s = Inl e \<Longrightarrow>
   get_users_info_ad d s lu lp users attrs = (Inl e, [])"
  by (simp add: get_users_info_ad_def)

text \<open>A search that raises leaves the log without an unbind.\<close>

lemma get_users_info_ad_search_raises:
  assumes flt: "build_search_filter users = Inr flt"
    and base: "get_search_base s = Inr base"
    and conn: "get_connection d s lu lp = (Inr (Some c), log)"
    and search: "dir_paged_search d c
        \<lparr>search_base = base, search_filter = flt, search_scope = SUBTREE,
         attributes = attrs, paged_size = 500\<rparr> = (entries, Some e)"
  shows "get_users_info_ad d s lu lp users attrs
     = (Inl e, [Bind c, PagedSearch c
          \<lparr>search_base = base, search_filter = flt, search_scope = SUBTREE,
           attributes = attrs, paged_size = 500\<rparr>])"
proof -
  from conn have "log = [Bind c]"
    by (rule get_connection_opened)
  with get_users_info_ad_run [OF flt base conn, of attrs] search show ?thesis
    by (simp add: Let_def)
qed

text \<open>A search that completes is followed by one unbind of its connection.\<close>

lemma get_users_info_ad_search_completes:
  assumes flt: "build_search_filter users = Inr flt"
    and base: "get_search_base s = Inr base"
    and conn: "get_connection d s lu lp = (Inr (Some c), log)"
    and search: "dir_paged_search d c
        \<lparr>search_base = base, search_filter = flt, search_scope = SUBTREE,
         attributes = attrs, paged_size = 500\<rparr> = (entries, None)"
  shows "get_users_info_ad d s lu lp users attrs
     = (Inr (filter (\<lambda>entry. entry_get entry ''type'' \<noteq> Some ''searchResRef'') entries),
        [Bind c,
         PagedSearch c
           \<lparr>search_base = base, search_filter = flt, search_scope = SUBTREE,
            attributes = attrs, paged_size = 500\<rparr>,
         Unbind c])"
proof -
  from conn have "log = [Bind c]"
    by (rule get_connection_opened)
  with get_users_info_ad_run [OF flt base conn, of attrs] search show ?thesis
    by (simp add: Let_def)
qed

text \<open>A call that returns entries has made a search that completed, and returns the
  entries of that search that are not referrals.\<close>

lemma get_users_info_ad_returns:
  assumes "fst (get_users_info_ad d s lu lp users attrs) = Inr rs"
  shows "\<exists>c req entries.
     snd (get_users_info_ad d s lu lp users attrs) = [Bind c, PagedSearch c req, Unbind c] \<and>
     dir_paged_search d c req = (entries, None) \<and>
     rs = filter (\<lambda>entry. entry_get entry ''type'' \<noteq> Some ''searchResRef'') entries"
proof -
  from assms obtain flt where flt: "build_search_filter users = Inr flt"
    by (cases "build_search_filter users") (auto simp: get_users_info_ad_no_filter)
  from assms flt obtain base where base: "get_search_base s = Inr base"
    by (cases "get_search_base s") (auto simp: get_users_info_ad_no_base)
  obtain r log where conn: "get_connection d s lu lp = (r, log)"
    by (cases "get_connection d s lu lp")
  note run = get_users_info_ad_run [OF flt base conn, of attrs]
  from assms run obtain c where r: "r = Inr (Some c)"
    by (cases r) (auto split: option.splits)
  let ?req = "\<lparr>search_base = base, search_filter = flt, search_scope = SUBTREE,
      attributes = attrs, paged_size = 500\<rparr>"
  obtain entries err where search: "dir_paged_search d c ?req = (entries, err)"
    by (cases "dir_paged_search d c ?req")
  from assms run r search have "err = None"
    by (cases err) (auto simp: Let_def)
  with search conn r
  have "get_users_info_ad d s lu lp users attrs
     = (Inr (filter (\<lambda>entry. entry_get entry ''type'' \<noteq> Some ''searchResRef'') entries),
        [Bind c, PagedSearch c ?req, Unbind c])"
    by (intro get_users_info_ad_search_completes [OF flt base]) simp_all
  with assms search \<open>err = None\<close> show ?thesis by auto
qed

subsection \<open>Releasing the connection\<close>

text \<open>
  C4. A connection that get_users_info_ad has opened should be closed once on every
  way out. In a directory that accepts the bind and whose paged search raises after the
  first entry, the call ends with the exception of the search; its log holds the bind
  and the search and no unbind, so the connection stays open.
\<close>

theorem get_users_info_ad_leaks_connection:
  "dir_bind failing_search_directory example_connection = None \<and>
   get_users_info_ad failing_search_directory example_settings None None UsersNone ''*''
     = (Inl (LDAPException ''unwillingToPerform''),
        [Bind example_connection,
         PagedSearch example_connection
           \<lparr>search_base = ''dc=corp,dc=example,dc=com'',
            search_filter = ''(objectClass=person)'', search_scope = SUBTREE,
            attributes = ''*'', paged_size = 500\<rparr>]) \<and>
   Unbind example_connection
     \<notin> set (snd (get_users_info_ad failing_search_directory example_settings None None
                  UsersNone ''*''))"
  by (simp add: settings_defs string_defs example_defs)

subsection \<open>A users argument that is not a list\<close>

text \<open>
  C6, as the claim states it, fails: the empty string is present and is not a list,
  and get_users_info_ad takes it for no users: it binds, searches with the filter
  \<^verbatim>\<open>(objectClass=person)\<close> and returns entries.
\<close>

theorem get_users_info_ad_accepts_empty_string:
  "get_users_info_ad accepting_directory example_settings None None (UsersStr []) ''*''
     = (Inr [[(''type'', ''searchResEntry''), (''dn'', ''cn=bob,dc=corp,dc=example,dc=com'')],
             [(''type'', ''searchResEntry''), (''dn'', ''cn=carol,dc=corp,dc=example,dc=com'')]],
        [Bind example_connection,
         PagedSearch example_connection
           \<lparr>search_base = ''dc=corp,dc=example,dc=com'',
            search_filter = ''(objectClass=person)'', search_scope = SUBTREE,
            attributes = ''*'', paged_size = 500\<rparr>,
         Unbind example_connection])"
  by (simp add: settings_defs string_defs example_defs)

text \<open>
  C6, amended. When the users argument is a string that is not empty, so a value that
  is true and neither a list nor a tuple, get_users_info_ad raises the LDAPException
  \<^verbatim>\<open>Users must be list/tuple of users or None\<close> with nothing in the log: no bind, no
  search, no unbind.
\<close>

theorem get_users_info_ad_rejects_scalar:
  "u \<noteq> [] \<Longrightarrow>
   get_users_info_ad d s lu lp (UsersStr u) attrs
     = (Inl (LDAPException ''Users must be list/tuple of users or None''), [])"
  by (simp add: get_users_info_ad_no_filter)

theorem get_users_info_ad_rejects_scalar_witness:
  "get_users_info_ad accepting_directory example_settings None None (UsersStr ''bob'') ''*''
     = (Inl (LDAPException ''Users must be list/tuple of users or None''), [])"
proof -
  have "''bob'' \<noteq> []" by simp
  then show ?thesis by (rule get_users_info_ad_rejects_scalar)
qed

subsection \<open>The entries returned\<close>

text \<open>
  C8. When the bind succeeds and the paged search completes, get_users_info_ad returns
  the entries of the response whose \<^verbatim>\<open>type\<close> is not \<^verbatim>\<open>searchResRef\<close>, in the order of
  the response: no referral is among them and no other entry is missing. Whenever the
  call returns entries at all, they are those of the search it made, filtered so.
\<close>

theorem get_users_info_ad_drops_referrals:
  "(build_search_filter users = Inr flt \<and> get_search_base s = Inr base \<and>
    get_connection d s lu lp = (Inr (Some c), log) \<and>
    dir_paged_search d c
      \<lparr>search_base = base, search_filter = flt, search_scope = SUBTREE,
       attributes = attrs, paged_size = 500\<rparr> = (entries, None) \<longrightarrow>
    fst (get_users_info_ad d s lu lp users attrs)
      = Inr (filter (\<lambda>entry. entry_get entry ''type'' \<noteq> Some ''searchResRef'') entries)) \<and>
   (fst (get_users_info_ad d s lu lp users attrs) = Inr rs \<longrightarrow>
    (\<exists>c' req es.
       PagedSearch c' req \<in> set (snd (get_users_info_ad d s lu lp users attrs)) \<and>
       dir_paged_search d c' req = (es, None) \<and>
       rs = filter (\<lambda>entry. entry_get entry ''type'' \<noteq> Some ''searchResRef'') es \<and>
       (\<forall>entry\<in>set rs. entry_get entry ''type'' \<noteq> Some ''searchResRef'') \<and>
       (\<forall>entry\<in>set es. entry_get entry ''type'' \<noteq> Some ''searchResRef'' \<longrightarrow>
          entry \<in> set rs)))"
proof -
  have completes: "build_search_filter users = Inr flt \<and> get_search_base s = Inr base \<and>
    get_connection d s lu lp = (Inr (Some c), log) \<and>
    dir_paged_search d c
      \<lparr>search_base = base, search_filter = flt, search_scope = SUBTREE,
       attributes = attrs, paged_size = 500\<rparr> = (entries, None) \<longrightarrow>
    fst (get_users_info_ad d s lu lp users attrs)
      = Inr (filter (\<lambda>entry. entry_get entry ''type'' \<noteq> Some ''searchResRef'') entries)"
    by (auto simp: get_users_info_ad_search_completes)
  have returns: "fst (get_users_info_ad d s lu lp users attrs) = Inr rs \<longrightarrow>
    (\<exists>c' req es.
       PagedSearch c' req \<in> set (snd (get_users_info_ad d s lu lp users attrs)) \<and>
       dir_paged_search d c' req = (es, None) \<and>
       rs = filter (\<lambda>entry. entry_get entry ''type'' \<noteq> Some ''searchResRef'') es \<and>
       (\<forall>entry\<in>set rs. entry_get entry ''type'' \<noteq> Some ''searchResRef'') \<and>
       (\<forall>entry\<in>set es. entry_get entry ''type'' \<noteq> Some ''searchResRef'' \<longrightarrow>
          entry \<in> set rs))"
  proof
    assume "fst (get_users_info_ad d s lu lp users attrs) = Inr rs"
    from get_users_info_ad_returns [OF this] obtain c' req es where
      log: "snd (get_users_info_ad d s lu lp users attrs) = [Bind c', PagedSearch c' req, Unbind c']"
      and search: "dir_paged_search d c' req = (es, None)"
      and rs: "rs = filter (\<lambda>entry. entry_get entry ''type'' \<noteq> Some ''searchResRef'') es"
      by blast
    from log have "PagedSearch c' req \<in> set (snd (get_users_info_ad d s lu lp users attrs))"
      by simp
    with search rs show "\<exists>c' req es.
       PagedSearch c' req \<in> set (snd (get_users_info_ad d s lu lp users attrs)) \<and>
       dir_paged_search d c' req = (es, None) \<and>
       rs = filter (\<lambda>entry. entry_get entry ''type'' \<noteq> Some ''searchResRef'') es \<and>
       (\<forall>entry\<in>set rs. entry_get entry ''type'' \<noteq> Some ''searchResRef'') \<and>
       (\<forall>entry\<in>set es. entry_get entry ''type'' \<noteq> Some ''searchResRef'' \<longrightarrow>
          entry \<in> set rs)"
      by (intro exI [of _ c'] exI [of _ req] exI [of _ es]) simp
  qed
  from completes returns show ?thesis by (rule conjI)
qed

theorem get_users_info_ad_drops_referrals_witness:
  "dir_paged_search accepting_directory example_connection
      \<lparr>search_base = ''dc=corp,dc=example,dc=com'', search_filter = ''(objectClass=person)'',
       search_scope = SUBTREE, attributes = ''*'', paged_size = 500\<rparr>
     = (example_entries, None) \<and>
   fst (get_users_info_ad accepting_directory example_settings None None UsersNone ''*'')
     = Inr [[(''type'', ''searchResEntry''), (''dn'', ''cn=bob,dc=corp,dc=example,dc=com'')],
            [(''type'', ''searchResEntry''), (''dn'', ''cn=carol,dc=corp,dc=example,dc=com'')]]"
proof -
  let ?req = "\<lparr>search_base = ''dc=corp,dc=example,dc=com'',
      search_filter = ''(objectClass=person)'', search_scope = SUBTREE,
      attributes = ''*'', paged_size = 500\<rparr>"
  have flt: "build_search_filter UsersNone = Inr ''(objectClass=person)''" by simp
  have base: "get_search_base example_settings = Inr ''dc=corp,dc=example,dc=com''"
    by (simp add: settings_defs string_defs example_defs)
  have conn: "get_connection accepting_directory example_settings None None
      = (Inr (Some example_connection), [Bind example_connection])"
    by (simp add: settings_defs string_defs example_defs)
  have search: "dir_paged_search accepting_directory example_connection ?req
      = (example_entries, None)"
    by (simp add: accepting_directory_def)
  have kept: "filter (\<lambda>entry. entry_get entry ''type'' \<noteq> Some ''searchResRef'') example_entries
      = [[(''type'', ''searchResEntry''), (''dn'', ''cn=bob,dc=corp,dc=example,dc=com'')],
         [(''type'', ''searchResEntry''), (''dn'', ''cn=carol,dc=corp,dc=example,dc=com'')]]"
    by (simp add: example_entries_def entry_get_def)
  from get_users_info_ad_drops_referrals [where users = UsersNone and s = example_settings
      and d = accepting_directory and lu = None and lp = None and attrs = "''*''"
      and flt = "''(objectClass=person)''" and base = "''dc=corp,dc=example,dc=com''"
      and c = example_connection and log = "[Bind example_connection]"
      and entries = example_entries, THEN conjunct1, THEN mp]
    flt base conn search
  have "fst (get_users_info_ad accepting_directory example_settings None None UsersNone ''*'')
      = Inr (filter (\<lambda>entry. entry_get entry ''type'' \<noteq> Some ''searchResRef'') example_entries)"
    by blast
  with kept search show ?thesis by simp
qed

subsection \<open>The search base and the stored username\<close>

text \<open>
  C10. The search base of a search that get_users_info_ad issues is get_search_base of
  the settings, which reads the stored username only, whatever the login arguments are.
  So when the stored username is absent or has neither an at sign nor a backslash, the
  call raises with nothing in the log, before any bind or search, also when the login
  arguments are a valid username and password: the exception is the AttributeError of
  get_search_base, or the LDAPException of the users argument when that is raised first.
\<close>

theorem get_users_info_ad_base_from_stored_username:
  "(PagedSearch c req \<in> set (snd (get_users_info_ad d s lu lp users attrs)) \<longrightarrow>
      get_search_base s = Inr (search_base req)) \<and>
   (username s = None \<or>
    (\<exists>u. username s = Some u \<and> CHR ''@'' \<notin> set u \<and> backslash \<notin> set u) \<longrightarrow>
      get_search_base s = Inl AttributeError \<and>
      get_users_info_ad d s lu lp users attrs
        = (Inl (case build_search_filter users of Inl e \<Rightarrow> e | Inr flt \<Rightarrow> AttributeError), []))"
proof -
  have sent: "PagedSearch c req \<in> set (snd (get_users_info_ad d s lu lp users attrs)) \<longrightarrow>
      get_search_base s = Inr (search_base req)"
    using get_users_info_ad_search by blast
  have fails: "username s = None \<or>
    (\<exists>u. username s = Some u \<and> CHR ''@'' \<notin> set u \<and> backslash \<notin> set u) \<longrightarrow>
      get_search_base s = Inl AttributeError \<and>
      get_users_info_ad d s lu lp users attrs
        = (Inl (case build_search_filter users of Inl e \<Rightarrow> e | Inr flt \<Rightarrow> AttributeError), [])"
  proof
    assume "username s = None \<or>
      (\<exists>u. username s = Some u \<and> CHR ''@'' \<notin> set u \<and> backslash \<notin> set u)"
    then have "get_user_principal_name (username s) = None"
      by (auto simp: get_user_principal_name_def)
    then have base: "get_search_base s = Inl AttributeError"
      by (simp add: get_search_base_def)
    then have "get_users_info_ad d s lu lp users attrs
        = (Inl (case build_search_filter users of Inl e \<Rightarrow> e | Inr flt \<Rightarrow> AttributeError), [])"
      by (cases "build_search_filter users")
         (simp_all add: get_users_info_ad_no_filter get_users_info_ad_no_base)
    with base show "get_search_base s = Inl AttributeError \<and>
      get_users_info_ad d s lu lp users attrs
        = (Inl (case build_search_filter users of Inl e \<Rightarrow> e | Inr flt \<Rightarrow> AttributeError), [])"
      by simp
  qed
  from sent fails show ?thesis by (rule conjI)
qed

theorem get_users_info_ad_base_from_stored_username_witness:
  "get_users_info_ad accepting_directory
      \<lparr>username = Some ''plainuser'', password = Some ''secret'',
       domain = ''dc1.corp.example.com'', ssl = False, port = 389\<rparr>
      (Some ''bob@corp.example.com'') (Some ''hunter2'') UsersNone ''*''
     = (Inl AttributeError, []) \<and>
   get_users_info_ad accepting_directory
      \<lparr>username = None, password = None,
       domain = ''dc1.corp.example.com'', ssl = False, port = 389\<rparr>
      (Some ''bob@corp.example.com'') (Some ''hunter2'') (UsersList [''bob'']) ''*''
     = (Inl AttributeError, [])"
proof -
  let ?plain = "\<lparr>username = Some ''plainuser'', password = Some ''secret'',
       domain = ''dc1.corp.example.com'', ssl = False, port = 389\<rparr>"
  let ?absent = "\<lparr>username = None, password = None,
       domain = ''dc1.corp.example.com'', ssl = False, port = 389\<rparr>"
  have p: "username ?plain = None \<or>
      (\<exists>u. username ?plain = Some u \<and> CHR ''@'' \<notin> set u \<and> backslash \<notin> set u)"
    by (simp add: backslash_def)
  have a: "username ?absent = None \<or>
      (\<exists>u. username ?absent = Some u \<and> CHR ''@'' \<notin> set u \<and> backslash \<notin> set u)"
    by simp
  have f: "build_search_filter UsersNone = Inr ''(objectClass=person)''" by simp
  have g: "build_search_filter (UsersList [''bob''])
      = Inr ''(&(objectClass=person)(|(sAMAccountName=bob)))''"
    by (simp add: string_defs)
  from get_users_info_ad_base_from_stored_username [where s = ?plain and users = UsersNone
      and d = accepting_directory and lu = "Some ''bob@corp.example.com''"
      and lp = "Some ''hunter2''" and attrs = "''*''", THEN conjunct2, THEN mp, OF p]
  have 1: "get_users_info_ad accepting_directory ?plain
      (Some ''bob@corp.example.com'') (Some ''hunter2'') UsersNone ''*''
     = (Inl AttributeError, [])"
    by (simp only: f sum.case)
  from get_users_info_ad_base_from_stored_username [where s = ?absent
      and users = "UsersList [''bob'']"
      and d = accepting_directory and lu = "Some ''bob@corp.example.com''"
      and lp = "Some ''hunter2''" and attrs = "''*''", THEN conjunct2, THEN mp, OF a]
  have 2: "get_users_info_ad accepting_directory ?absent
      (Some ''bob@corp.example.com'') (Some ''hunter2'') (UsersList [''bob'']) ''*''
     = (Inl AttributeError, [])"
    by (simp only: g sum.case)
  from 1 2 show ?thesis by (rule conjI)
qed

end
